theory Spec2Isabelle
  imports Complex_Main "HOL-Library.Sublist"
begin

section \<open>JavaScript values\<close>

subsection \<open>Numbers\<close>

text \<open>
  A JavaScript number is an IEEE double. The model keeps its three kinds of special value
  (\<open>NaN\<close>, \<open>+Infinity\<close>, \<open>-Infinity\<close>) and takes the finite values as reals: the
  arithmetic is exact (no rounding, no overflow of a finite result) and the sign of zero
  is not tracked. In \<open>script.js\<close> a zero divisor is always a product of square roots,
  so it is \<open>+0\<close>.
\<close>

datatype jsnum = NaN | NInf | Num real | PInf

text \<open>The infinity with the sign of \<open>s\<close>; \<open>NaN\<close> for \<open>s = 0\<close> (as in \<open>Infinity * 0\<close> and \<open>0 / 0\<close>).\<close>

definition inf_signed :: "real \<Rightarrow> jsnum" where
  "inf_signed s = (if s = 0 then NaN else if 0 < s then PInf else NInf)"

fun jneg :: "jsnum \<Rightarrow> jsnum" where
  "jneg NaN = NaN"
| "jneg NInf = PInf"
| "jneg (Num x) = Num (- x)"
| "jneg PInf = NInf"

text \<open>\<open>a + b\<close>\<close>

fun jadd :: "jsnum \<Rightarrow> jsnum \<Rightarrow> jsnum" where
  "jadd NaN b = NaN"
| "jadd NInf NaN = NaN"
| "jadd NInf NInf = NInf"
| "jadd NInf (Num y) = NInf"
| "jadd NInf PInf = NaN"
| "jadd (Num x) NaN = NaN"
| "jadd (Num x) NInf = NInf"
| "jadd (Num x) (Num y) = Num (x + y)"
| "jadd (Num x) PInf = PInf"
| "jadd PInf NaN = NaN"
| "jadd PInf NInf = NaN"
| "jadd PInf (Num y) = PInf"
| "jadd PInf PInf = PInf"

text \<open>\<open>a - b\<close>\<close>

definition jsub :: "jsnum \<Rightarrow> jsnum \<Rightarrow> jsnum" where
  "jsub a b = jadd a (jneg b)"

text \<open>\<open>a * b\<close>\<close>

fun jmul :: "jsnum \<Rightarrow> jsnum \<Rightarrow> jsnum" where
  "jmul NaN b = NaN"
| "jmul NInf NaN = NaN"
| "jmul NInf NInf = PInf"
| "jmul NInf (Num y) = inf_signed (- y)"
| "jmul NInf PInf = NInf"
| "jmul (Num x) NaN = NaN"
| "jmul (Num x) NInf = inf_signed (- x)"
| "jmul (Num x) (Num y) = Num (x * y)"
| "jmul (Num x) PInf = inf_signed x"
| "jmul PInf NaN = NaN"
| "jmul PInf NInf = NInf"
| "jmul PInf (Num y) = inf_signed y"
| "jmul PInf PInf = PInf"

text \<open>\<open>a / b\<close>: \<open>0 / 0\<close> and \<open>Infinity / Infinity\<close> are \<open>NaN\<close>, \<open>x / 0\<close> is an infinity.\<close>

fun jdiv :: "jsnum \<Rightarrow> jsnum \<Rightarrow> jsnum" where
  "jdiv NaN b = NaN"
| "jdiv NInf NaN = NaN"
| "jdiv NInf NInf = NaN"
| "jdiv NInf (Num y) = (if y < 0 then PInf else NInf)"
| "jdiv NInf PInf = NaN"
| "jdiv (Num x) NaN = NaN"
| "jdiv (Num x) NInf = Num 0"
| "jdiv (Num x) (Num y) = (if y = 0 then inf_signed x else Num (x / y))"
| "jdiv (Num x) PInf = Num 0"
| "jdiv PInf NaN = NaN"
| "jdiv PInf NInf = NaN"
| "jdiv PInf (Num y) = (if y < 0 then NInf else PInf)"
| "jdiv PInf PInf = NaN"

text \<open>\<open>Math.sqrt\<close>\<close>

fun jsqrt :: "jsnum \<Rightarrow> jsnum" where
  "jsqrt NaN = NaN"
| "jsqrt NInf = NaN"
| "jsqrt (Num x) = (if x < 0 then NaN else Num (sqrt x))"
| "jsqrt PInf = PInf"

text \<open>\<open>a < b\<close> and \<open>a >= b\<close>: every comparison with \<open>NaN\<close> is false.\<close>

fun jless :: "jsnum \<Rightarrow> jsnum \<Rightarrow> bool" where
  "jless NaN b = False"
| "jless NInf NaN = False"
| "jless NInf NInf = False"
| "jless NInf (Num y) = True"
| "jless NInf PInf = True"
| "jless (Num x) NaN = False"
| "jless (Num x) NInf = False"
| "jless (Num x) (Num y) = (x < y)"
| "jless (Num x) PInf = True"
| "jless PInf b = False"

definition jge :: "jsnum \<Rightarrow> jsnum \<Rightarrow> bool" where
  "jge a b = (a \<noteq> NaN \<and> b \<noteq> NaN \<and> \<not> jless a b)"

subsection \<open>Values read from the corpus file, and array reads\<close>

text \<open>
  What a field of the parsed JSON may hold, as far as \<open>script.js\<close> looks at it:
  \<^item> \<open>Undefined\<close>: the key is absent; \<open>Null\<close>: JSON \<open>null\<close>;
  \<^item> \<open>Array xs\<close>: an array, each element given as the number that \<open>ToNumber\<close> makes of
    it (the element itself when it is a number);
  \<^item> \<open>Other t f\<close>: any other value (a boolean, a number, a string, a non-array object):
    \<open>t\<close> is its truthiness and \<open>f i\<close> the number that \<open>ToNumber\<close> makes of its
    property \<open>i\<close> (\<open>NaN\<close> where it has none).
\<close>

datatype jsvalue = Undefined | Null | Other bool "nat \<Rightarrow> jsnum" | Array "jsnum list"

datatype error =
    TypeError                \<comment> \<open>a property read on \<open>undefined\<close> or \<open>null\<close>\<close>
  | ModelNotLoaded           \<comment> \<open>\<open>new Error('AI model not loaded yet. Please wait...')\<close>\<close>
  | EmbedderError string     \<comment> \<open>whatever the embedding pipeline throws\<close>

text \<open>Truthiness, and \<open>Array.isArray\<close>.\<close>

fun truthy :: "jsvalue \<Rightarrow> bool" where
  "truthy Undefined = False"
| "truthy Null = False"
| "truthy (Other t f) = t"
| "truthy (Array xs) = True"

fun isArray :: "jsvalue \<Rightarrow> bool" where
  "isArray (Array xs) = True"
| "isArray v = False"

text \<open>
  \<open>a[i]\<close> as an operand of \<open>*\<close>, for an array \<open>a\<close>: past the end the read gives
  \<open>undefined\<close>, which \<open>*\<close> turns into \<open>NaN\<close>.
\<close>

definition read :: "jsnum list \<Rightarrow> nat \<Rightarrow> jsnum" where
  "read xs i = (if i < length xs then xs ! i else NaN)"

text \<open>\<open>b[i]\<close> as an operand of \<open>*\<close>, for any value \<open>b\<close>: a read on \<open>undefined\<close> or \<open>null\<close> throws.\<close>

fun index :: "jsvalue \<Rightarrow> nat \<Rightarrow> error + jsnum" where
  "index Undefined i = Inl TypeError"
| "index Null i = Inl TypeError"
| "index (Other t f) i = Inr (f i)"
| "index (Array xs) i = Inr (read xs i)"

section \<open>The similarity engine\<close>

subsection \<open>\<open>cosineSimilarity\<close>\<close>

text \<open>
  The \<open>for\<close> loop of \<open>cosineSimilarity(a, b)\<close>, from index \<open>i\<close> on, with the values of
  \<open>dotProduct\<close>, \<open>normA\<close> and \<open>normB\<close>. The bound is \<open>a.length\<close>; \<open>b\<close> is read at the
  same indices whatever its length. \<open>a\<close> is an array (the query embedding).
\<close>

function cosineLoop ::
  "jsnum list \<Rightarrow> jsvalue \<Rightarrow> nat \<Rightarrow> jsnum \<times> jsnum \<times> jsnum \<Rightarrow> error + jsnum \<times> jsnum \<times> jsnum" where
  "cosineLoop a b i (dotProduct, normA, normB) =
     (if i < length a then
        (case index b i of
           Inl e \<Rightarrow> Inl e
         | Inr bi \<Rightarrow>
             cosineLoop a b (Suc i)
               (jadd dotProduct (jmul (read a i) bi),
                jadd normA (jmul (read a i) (read a i)),
                jadd normB (jmul bi bi)))
      else Inr (dotProduct, normA, normB))"
  by pat_completeness auto
termination
  by (relation "measure (\<lambda>(a, b, i, acc). length a - i)") auto

definition cosineSimilarity :: "jsnum list \<Rightarrow> jsvalue \<Rightarrow> error + jsnum" where
  "cosineSimilarity a b =
     (case cosineLoop a b 0 (Num 0, Num 0, Num 0) of
        Inl e \<Rightarrow> Inl e
      | Inr (dotProduct, normA, normB) \<Rightarrow>
          Inr (jdiv dotProduct (jmul (jsqrt normA) (jsqrt normB))))"

section \<open>Strings\<close>

text \<open>
  A JavaScript string is a sequence of UTF-16 code units. The translation of a verse and
  the term of a keyword search, whose characters the search compares, are given as the
  lists of their code units. The other texts of the model are only stored, shown or
  looked up whole, and are written as Isabelle strings. \<open>js\<close> gives the code units of
  a string of ASCII characters.
\<close>

type_synonym jsstring = "nat list"

definition js :: "string \<Rightarrow> jsstring" where
  "js s = map of_char s"

section \<open>The corpus and the flattened verse index\<close>

text \<open>
  \<open>quran_with_embeddings.json\<close> as \<open>loadQuranData\<close> reads it: \<open>surahs\<close>, each with
  \<open>name\<close>, \<open>transliteration\<close> and \<open>verses\<close> (and \<open>translation\<close>, \<open>type\<close>,
  \<open>total_verses\<close>, which only the rendering uses); each verse with \<open>id\<close>, \<open>text\<close>,
  \<open>translation\<close> and \<open>embedding\<close>. The fields carry a prefix here, since \<open>id\<close> is a HOL
  constant and \<open>translation\<close> is a field of both. A corpus of this type has the shape the
  loops need: every surah has its list of verses.
\<close>

record json_verse =
  v_id :: int
  v_text :: string
  v_translation :: jsstring
  v_embedding :: jsvalue

record json_surah =
  s_name :: string
  s_transliteration :: string
  s_translation :: string
  s_type :: string
  s_total_verses :: int
  s_verses :: "json_verse list"

record corpus =
  surahs :: "json_surah list"

text \<open>An element of \<open>allVersesWithEmbeddings\<close>.\<close>

record verse =
  surah_id :: nat
  surah_name :: string
  surah_english :: string
  verse_id :: int
  text_arabic :: string
  text_translation :: jsstring
  embedding :: jsvalue

text \<open>The object literal that the inner \<open>forEach\<close> builds for a verse.\<close>

definition flatVerse :: "nat \<Rightarrow> json_surah \<Rightarrow> json_verse \<Rightarrow> verse" where
  "flatVerse surahIndex surah v =
     \<lparr>surah_id = surahIndex + 1,
      surah_name = s_name surah,
      surah_english = s_transliteration surah,
      verse_id = v_id v,
      text_arabic = v_text v,
      text_translation = v_translation v,
      embedding = v_embedding v\<rparr>"

text \<open>The body of the inner \<open>forEach\<close>: one \<open>push\<close>.\<close>

definition pushVerse :: "nat \<Rightarrow> json_surah \<Rightarrow> json_verse \<Rightarrow> verse list \<Rightarrow> verse list" where
  "pushVerse surahIndex surah v acc = acc @ [flatVerse surahIndex surah v]"

text \<open>The inner \<open>forEach\<close> over \<open>surah.verses\<close>.\<close>

definition flattenSurah :: "nat \<Rightarrow> json_surah \<Rightarrow> verse list \<Rightarrow> verse list" where
  "flattenSurah surahIndex surah acc = fold (pushVerse surahIndex surah) (s_verses surah) acc"

text \<open>The outer \<open>forEach((surah, surahIndex) => ...)\<close>, from index \<open>surahIndex\<close> on.\<close>

fun flattenFrom :: "nat \<Rightarrow> json_surah list \<Rightarrow> verse list \<Rightarrow> verse list" where
  "flattenFrom surahIndex [] acc = acc"
| "flattenFrom surahIndex (surah # rest) acc =
     flattenFrom (Suc surahIndex) rest (flattenSurah surahIndex surah acc)"

text \<open>\<open>allVersesWithEmbeddings = []\<close> followed by the two loops.\<close>

definition flatten :: "corpus \<Rightarrow> verse list" where
  "flatten quranData = flattenFrom 0 (surahs quranData) []"

section \<open>The application state\<close>

text \<open>An entry of a semantic result list: \<open>{verse, relevance}\<close>.\<close>

record scored =
  verse :: verse
  relevance :: jsnum

text \<open>What \<open>#content\<close> shows, as data.\<close>

datatype page =
    Blank
  | Loading string
  | SurahList
  | ErrorBox string
  | NoResultsFound
  | KeywordResults nat "verse list" jsstring
      \<comment> \<open>the count in the header, the verses rendered, the search term\<close>
  | SemanticResults "scored list" string
  | SearchFailed error
      \<comment> \<open>the error box with \<open>AI search failed:\<close> and the message of the error\<close>

text \<open>
  The globals of \<open>script.js\<close>. The embedder is the pipeline returned by Transformers.js,
  taken as a function from the text to an embedding or to what it throws.
  \<open>embedderCalls\<close> is not in the source: it counts the calls of the embedder.
\<close>

record app_state =
  quranData :: "corpus option"
  allVersesWithEmbeddings :: "verse list"
  embedder :: "(string \<Rightarrow> error + jsnum list) option"
  queryEmbeddingCache :: "string \<rightharpoonup> jsnum list"
  modelLoaded :: bool
  content :: page
  embedderCalls :: nat

definition initial_state :: app_state where
  "initial_state =
     \<lparr>quranData = None, allVersesWithEmbeddings = [], embedder = None,
      queryEmbeddingCache = Map.empty, modelLoaded = False, content = Blank,
      embedderCalls = 0\<rparr>"

text \<open>
  \<open>loadQuranData\<close>; \<open>response\<close> is the parsed file, \<open>None\<close> when the fetch or the parse
  throws (the \<open>catch\<close> branch).
\<close>

definition loadQuranData :: "app_state \<Rightarrow> corpus option \<Rightarrow> app_state" where
  "loadQuranData st response =
     (case response of
        None \<Rightarrow>
          st\<lparr>content := ErrorBox
            ''Failed to load Quran data. Make sure quran_with_embeddings.json is in the same folder.''\<rparr>
      | Some data \<Rightarrow>
          st\<lparr>quranData := Some data,
             allVersesWithEmbeddings := flatten data,
             content := SurahList\<rparr>)"

text \<open>
  \<open>initializeModel\<close>; \<open>outcome\<close> is what \<open>await pipeline(...)\<close> gives: the embedder, or
  an error (the \<open>catch\<close> branch, which leaves \<open>embedder\<close> and \<open>modelLoaded\<close> as they are).
\<close>

definition initializeModel ::
  "app_state \<Rightarrow> error + (string \<Rightarrow> error + jsnum list) \<Rightarrow> app_state" where
  "initializeModel st outcome =
     (if modelLoaded st then st
      else (case outcome of
              Inl e \<Rightarrow> st
            | Inr model \<Rightarrow> st\<lparr>embedder := Some model, modelLoaded := True\<rparr>))"

section \<open>The embedding provider\<close>

text \<open>
  \<open>queryEmbeddingCache\<close> is a plain object \<open>{}\<close>, and \<open>queryEmbeddingCache[query]\<close> is an
  ordinary property read: where the object has no property of its own under that name, the
  read goes on to \<open>Object.prototype\<close>. These are the names \<open>Object.prototype\<close> defines.
  Each of them holds a function, but \<open>__proto__\<close>, which reads as \<open>Object.prototype\<close>
  itself: all are truthy.
\<close>

definition prototypeKeys :: "string list" where
  "prototypeKeys =
     [''constructor'', ''hasOwnProperty'', ''isPrototypeOf'', ''propertyIsEnumerable'',
      ''toLocaleString'', ''toString'', ''valueOf'', ''__defineGetter__'',
      ''__defineSetter__'', ''__lookupGetter__'', ''__lookupSetter__'', ''__proto__'']"

text \<open>A truthy value of \<open>queryEmbeddingCache[query]\<close>.\<close>

datatype cached =
    Embedding "jsnum list"   \<comment> \<open>an array stored by an earlier call\<close>
  | Inherited string         \<comment> \<open>the property of that name of \<open>Object.prototype\<close>\<close>

text \<open>\<open>queryEmbeddingCache[query]\<close>; \<open>None\<close> is \<open>undefined\<close>.\<close>

definition cacheLookup :: "(string \<rightharpoonup> jsnum list) \<Rightarrow> string \<Rightarrow> cached option" where
  "cacheLookup cache query =
     (case cache query of
        Some e \<Rightarrow> Some (Embedding e)
      | None \<Rightarrow> if query \<in> set prototypeKeys then Some (Inherited query) else None)"

text \<open>
  \<open>getQueryEmbedding\<close>: the result (a value returned, or an error thrown) and the state
  after the call. An array is always truthy, so a stored embedding is always found.
\<close>

definition getQueryEmbedding :: "app_state \<Rightarrow> string \<Rightarrow> (error + cached) \<times> app_state" where
  "getQueryEmbedding st query =
     (case cacheLookup (queryEmbeddingCache st) query of
        Some hit \<Rightarrow> (Inr hit, st)
      | None \<Rightarrow>
          (case embedder st of
             None \<Rightarrow> (Inl ModelNotLoaded, st)
           | Some model \<Rightarrow>
               (case model query of
                  Inl e \<Rightarrow> (Inl e, st\<lparr>embedderCalls := embedderCalls st + 1\<rparr>)
                | Inr embedding' \<Rightarrow>
                    (Inr (Embedding embedding'),
                     st\<lparr>embedderCalls := embedderCalls st + 1,
                        queryEmbeddingCache := (queryEmbeddingCache st)(query \<mapsto> embedding')\<rparr>))))"

section \<open>Semantic search\<close>

text \<open>
  \<open>Array.prototype.sort(comparefn)\<close>. The sort is stable (ECMAScript 2019), and an element \<open>x\<close> goes
  behind an element \<open>y\<close> that followed it only when \<open>comparefn(x, y) > 0\<close>; a result that
  is \<open>NaN\<close> counts as \<open>0\<close>. For a comparator that orders the elements consistently this
  fixes the outcome, which insertion computes. For any other comparator ECMAScript leaves
  the order to the engine; the model then gives what insertion gives.
\<close>

definition sortsAfter :: "('a \<Rightarrow> 'a \<Rightarrow> jsnum) \<Rightarrow> 'a \<Rightarrow> 'a \<Rightarrow> bool" where
  "sortsAfter comparefn x y = jless (Num 0) (comparefn x y)"

fun insertSorted :: "('a \<Rightarrow> 'a \<Rightarrow> jsnum) \<Rightarrow> 'a \<Rightarrow> 'a list \<Rightarrow> 'a list" where
  "insertSorted comparefn x [] = [x]"
| "insertSorted comparefn x (y # ys) =
     (if sortsAfter comparefn x y then y # insertSorted comparefn x ys else x # y # ys)"

definition sort_js :: "('a \<Rightarrow> 'a \<Rightarrow> jsnum) \<Rightarrow> 'a list \<Rightarrow> 'a list" where
  "sort_js comparefn xs = foldr (insertSorted comparefn) xs []"

text \<open>\<open>xs.slice(0, n)\<close> for an integer \<open>n\<close>: a negative \<open>n\<close> counts from the end.\<close>

definition slice0 :: "'a list \<Rightarrow> int \<Rightarrow> 'a list" where
  "slice0 xs n = (if n < 0 then take (nat (int (length xs) + n)) xs else take (nat n) xs)"

text \<open>The filter of \<open>semanticSearch\<close>: \<open>verse.embedding && Array.isArray(verse.embedding)\<close>.\<close>

definition hasEmbedding :: "verse \<Rightarrow> bool" where
  "hasEmbedding v = (truthy (embedding v) \<and> isArray (embedding v))"

text \<open>The \<open>map\<close> of \<open>semanticSearch\<close>, which ends at the first call that throws.\<close>

fun mapScores :: "jsnum list \<Rightarrow> verse list \<Rightarrow> error + scored list" where
  "mapScores queryEmbedding [] = Inr []"
| "mapScores queryEmbedding (v # vs) =
     (case cosineSimilarity queryEmbedding (embedding v) of
        Inl e \<Rightarrow> Inl e
      | Inr r \<Rightarrow>
          (case mapScores queryEmbedding vs of
             Inl e \<Rightarrow> Inl e
           | Inr rest \<Rightarrow> Inr (\<lparr>verse = v, relevance = r\<rparr> # rest)))"

definition similarities :: "jsnum list \<Rightarrow> verse list \<Rightarrow> error + scored list" where
  "similarities queryEmbedding allVerses = mapScores queryEmbedding (filter hasEmbedding allVerses)"

text \<open>The comparator \<open>(a, b) => b.relevance - a.relevance\<close>.\<close>

definition byRelevance :: "scored \<Rightarrow> scored \<Rightarrow> jsnum" where
  "byRelevance a b = jsub (relevance b) (relevance a)"

text \<open>
  Lines 161 to 176 of \<open>semanticSearch\<close>: what it returns for a query embedding, the index
  and \<open>topK\<close>.
\<close>

definition topResults :: "jsnum list \<Rightarrow> verse list \<Rightarrow> int \<Rightarrow> error + scored list" where
  "topResults queryEmbedding allVerses topK =
     (case similarities queryEmbedding allVerses of
        Inl e \<Rightarrow> Inl e
      | Inr sims \<Rightarrow> Inr (slice0 (sort_js byRelevance sims) topK))"

text \<open>
  What \<open>cosineSimilarity\<close> reads of its first argument: \<open>a.length\<close> and the \<open>a[i]\<close> below
  it. A function inherited from \<open>Object.prototype\<close> has its number of parameters as
  \<open>length\<close> and no property \<open>i\<close>, so each \<open>a[i]\<close> is \<open>undefined\<close>; \<open>Object.prototype\<close>
  itself has no \<open>length\<close>, and the loop does not run.
\<close>

definition functionLength :: "string \<Rightarrow> nat" where
  "functionLength key =
     (if key \<in> {''__defineGetter__'', ''__defineSetter__''} then 2
      else if key \<in> {''constructor'', ''hasOwnProperty'', ''isPrototypeOf'',
                      ''propertyIsEnumerable'', ''__lookupGetter__'', ''__lookupSetter__''} then 1
      else 0)"

fun arrayLike :: "cached \<Rightarrow> jsnum list" where
  "arrayLike (Embedding e) = e"
| "arrayLike (Inherited key) = replicate (functionLength key) NaN"

text \<open>
  \<open>semanticSearch\<close>: the result and the state after the call. An error of either step is
  thrown again by the \<open>catch\<close>.
\<close>

definition semanticSearch ::
  "app_state \<Rightarrow> string \<Rightarrow> int \<Rightarrow> (error + scored list) \<times> app_state" where
  "semanticSearch st query topK =
     (case getQueryEmbedding (st\<lparr>content := Loading ''AI is analyzing your query''\<rparr>) query of
        (Inl e, st') \<Rightarrow> (Inl e, st')
      | (Inr queryEmbedding, st') \<Rightarrow>
          (topResults (arrayLike queryEmbedding) (allVersesWithEmbeddings st') topK,
           st'\<lparr>content := Loading ''Searching through all verses''\<rparr>))"

text \<open>
  \<open>semanticSearchAndDisplay\<close>: the results of \<open>semanticSearch(searchTerm, 20)\<close> are
  shown, or the no-results page, or the error that was thrown.
\<close>

definition semanticSearchAndDisplay :: "app_state \<Rightarrow> string \<Rightarrow> app_state" where
  "semanticSearchAndDisplay st searchTerm =
     (case semanticSearch st searchTerm 20 of
        (Inl e, st') \<Rightarrow> st'\<lparr>content := SearchFailed e\<rparr>
      | (Inr results, st') \<Rightarrow>
          if length results > 0
          then st'\<lparr>content := SemanticResults results searchTerm\<rparr>
          else st'\<lparr>content := NoResultsFound\<rparr>)"

section \<open>Keyword search\<close>

text \<open>
  \<open>String.prototype.toLowerCase\<close> is a built-in of the engine, which follows Unicode's
  case mappings (\<open>UnicodeData.txt\<close> and the locale-insensitive rules of
  \<open>SpecialCasing.txt\<close>); it is not a function of \<open>script.js\<close>. The keyword search takes
  it as a parameter, \<open>toLowerCase\<close>: what is proved of the search for every function holds
  for the built-in.
\<close>

text \<open>\<open>s.includes(t)\<close>: \<open>t\<close> starts at some position of \<open>s\<close>.\<close>

fun includes_js :: "'a list \<Rightarrow> 'a list \<Rightarrow> bool" where
  "includes_js [] t = (t = [])"
| "includes_js (c # cs) t = (prefix t (c # cs) \<or> includes_js cs t)"

text \<open>\<open>displayKeywordResults\<close>: the header counts all matches, the list shows \<open>matches.slice(0, 50)\<close>.\<close>

definition displayKeywordResults :: "verse list \<Rightarrow> jsstring \<Rightarrow> page" where
  "displayKeywordResults matches searchTerm =
     KeywordResults (length matches) (slice0 matches 50) searchTerm"

text \<open>
  Lines 272 to 275 of \<open>keywordSearchAndDisplay\<close>: the matches. (\<open>text_translation\<close> is
  a string: a verse without a translation is not in this model.)
\<close>

definition keywordMatches :: "(jsstring \<Rightarrow> jsstring) \<Rightarrow> verse list \<Rightarrow> jsstring \<Rightarrow> verse list" where
  "keywordMatches toLowerCase allVerses searchTerm =
     (let lowerQuery = toLowerCase searchTerm
      in filter (\<lambda>v. includes_js (toLowerCase (text_translation v)) lowerQuery) allVerses)"

definition keywordSearchAndDisplay ::
  "(jsstring \<Rightarrow> jsstring) \<Rightarrow> app_state \<Rightarrow> jsstring \<Rightarrow> app_state" where
  "keywordSearchAndDisplay toLowerCase st searchTerm =
     (let matches = keywordMatches toLowerCase (allVersesWithEmbeddings st) searchTerm
      in if length matches > 0
         then st\<lparr>content := displayKeywordResults matches searchTerm\<rparr>
         else st\<lparr>content := NoResultsFound\<rparr>)"

section \<open>Notions used to state the properties\<close>

text \<open>
  These are not in \<open>script.js\<close>; they say what the specification's words mean here.
  A result list is sorted non-increasing by score when each score is \<open>>=\<close> every later
  one, with JavaScript's \<open>>=\<close>.
\<close>

definition nonIncreasing :: "scored list \<Rightarrow> bool" where
  "nonIncreasing rs = sorted_wrt (\<lambda>x y. jge (relevance x) (relevance y)) rs"


text \<open>
  Two code units are the same up to case when they are equal, or are the upper and the
  lower case of one of the letters A to Z (codes 65 to 90 and 97 to 122). Of a letter
  outside ASCII this says only that it is the same as itself.
\<close>

definition sameLetter :: "nat \<Rightarrow> nat \<Rightarrow> bool" where
  "sameLetter c d =
     (c = d \<or> (65 \<le> c \<and> c \<le> 90 \<and> d = c + 32) \<or> (65 \<le> d \<and> d \<le> 90 \<and> c = d + 32))"

text \<open>
  The text \<open>t\<close> contains the query \<open>q\<close> as a case-insensitive substring: a stretch of
  \<open>t\<close> is \<open>q\<close>, code unit by code unit, up to case.
\<close>

definition containsIgnoringCase :: "jsstring \<Rightarrow> jsstring \<Rightarrow> bool" where
  "containsIgnoringCase t q =
     (\<exists>before w after. t = before @ w @ after \<and> list_all2 sameLetter w q)"

text \<open>A string of ASCII characters.\<close>

definition ascii :: "jsstring \<Rightarrow> bool" where
  "ascii s = list_all (\<lambda>c. c < 128) s"

text \<open>
  What the built-in \<open>toLowerCase\<close> does to a string of ASCII characters: the letters A to
  Z become a to z, and every other character stays.
\<close>

definition asciiLower :: "nat \<Rightarrow> nat" where
  "asciiLower c = (if 65 \<le> c \<and> c \<le> 90 then c + 32 else c)"

definition lowersAscii :: "(jsstring \<Rightarrow> jsstring) \<Rightarrow> bool" where
  "lowersAscii toLowerCase = (\<forall>s. ascii s \<longrightarrow> toLowerCase s = map asciiLower s)"

text \<open>
  The place in the flattened index of verse \<open>vj\<close> of surah \<open>si\<close> (both counted from 0):
  after all verses of the surahs before it.
\<close>

definition flatPosition :: "corpus \<Rightarrow> nat \<Rightarrow> nat \<Rightarrow> nat" where
  "flatPosition c si vj = sum_list (map (\<lambda>s. length (s_verses s)) (take si (surahs c))) + vj"

section \<open>Example data\<close>

definition exampleVerse :: "int \<Rightarrow> string \<Rightarrow> jsvalue \<Rightarrow> verse" where
  "exampleVerse n translation e =
     \<lparr>surah_id = 1, surah_name = ''Al-Fatihah'', surah_english = ''The Opener'', verse_id = n,
      text_arabic = [], text_translation = js translation, embedding = e\<rparr>"

text \<open>Five verses with embeddings of dimension 2; the third has none.\<close>

definition exampleIndex :: "verse list" where
  "exampleIndex =
     [exampleVerse 1 ''Mercy to the worlds'' (Array [Num 1, Num 0]),
      exampleVerse 2 ''a light and a clear Book'' (Array [Num 0, Num 1]),
      exampleVerse 3 ''Guide us to the straight path'' Undefined,
      exampleVerse 4 ''And the night when it covers'' (Array [Num (- 1), Num 0]),
      exampleVerse 5 ''By the morning brightness'' (Array [Num 0, Num (- 2)])]"

text \<open>A verse whose embedding is the zero vector, and one with a one-element embedding.\<close>

definition zeroVerse :: verse where
  "zeroVerse = exampleVerse 1 ''Guide us to the straight path'' (Array [Num 0, Num 0])"

definition shortVerse :: verse where
  "shortVerse = exampleVerse 1 ''Guide us to the straight path'' (Array [Num 1])"

definition unitVerse :: verse where
  "unitVerse = exampleVerse 2 ''Mercy to the worlds'' (Array [Num 1, Num 0])"

definition exampleJsonVerse :: "int \<Rightarrow> json_verse" where
  "exampleJsonVerse n =
     \<lparr>v_id = n, v_text = [], v_translation = js ''Guide us to the straight path'',
      v_embedding = Array [Num 1, Num 0]\<rparr>"

definition exampleSurah :: "string \<Rightarrow> json_verse list \<Rightarrow> json_surah" where
  "exampleSurah n vs =
     \<lparr>s_name = n, s_transliteration = n, s_translation = n, s_type = ''meccan'',
      s_total_verses = int (length vs), s_verses = vs\<rparr>"

text \<open>Two surahs, of two verses and of one, numbered from 1 in each.\<close>

definition exampleCorpus :: corpus where
  "exampleCorpus =
     \<lparr>surahs = [exampleSurah ''Al-Fatihah'' [exampleJsonVerse 1, exampleJsonVerse 2],
                exampleSurah ''Al-Baqarah'' [exampleJsonVerse 1]]\<rparr>"

text \<open>One surah whose data file numbers its two verses 1 and 3.\<close>

definition gapCorpus :: corpus where
  "gapCorpus = \<lparr>surahs = [exampleSurah ''Al-Fatihah'' [exampleJsonVerse 1, exampleJsonVerse 3]]\<rparr>"


text \<open>
  The values of the built-in \<open>toLowerCase\<close> at the strings of the examples. These are
  strings of ASCII characters and the two strings \<open>A\<Sigma>\<close> and \<open>A\<Sigma>B\<close>, with the
  capital sigma, code 931 (U+03A3). A capital sigma at the end of a word becomes the final
  sigma, code 962 (U+03C2), by the rule \<open>Final_Sigma\<close> of \<open>SpecialCasing.txt\<close>, and the
  small sigma, code 963 (U+03C3), elsewhere: for \<open>A\<Sigma>\<close> the built-in gives the codes
  97, 962 and for \<open>A\<Sigma>B\<close> the codes 97, 963, 98. The definition is used at these
  strings only; of the built-in at any other string it says nothing, and no property of
  the search below rests on it: they are proved for every function \<open>toLowerCase\<close>.
\<close>

definition lowerExample :: "jsstring \<Rightarrow> jsstring" where
  "lowerExample s =
     (if s = [65, 931] then [97, 962]
      else if s = [65, 931, 66] then [97, 963, 98]
      else map asciiLower s)"

text \<open>A verse whose translation is \<open>A\<Sigma>B\<close>.\<close>

definition sigmaVerse :: verse where
  "sigmaVerse =
     \<lparr>surah_id = 1, surah_name = ''Al-Fatihah'', surah_english = ''The Opener'', verse_id = 1,
      text_arabic = [], text_translation = [65, 931, 66], embedding = Undefined\<rparr>"


section \<open>Properties of \<open>cosineSimilarity\<close>\<close>

lemma jmul_commute: "jmul a b = jmul b a"
  by (cases a; cases b) (simp_all add: mult.commute)

lemmas [simp del] = cosineLoop.simps

lemma cosineLoop_done: "\<not> i < length a \<Longrightarrow> cosineLoop a b i acc = Inr acc"
  by (cases acc) (simp add: cosineLoop.simps)

lemma cosineLoop_step:
  "i < length a \<Longrightarrow>
   cosineLoop a (Array b) i (d, x, y) =
     cosineLoop a (Array b) (Suc i)
       (jadd d (jmul (read a i) (read b i)), jadd x (jmul (read a i) (read a i)),
        jadd y (jmul (read b i) (read b i)))"
  by (subst cosineLoop.simps) simp

text \<open>With the arguments exchanged the loop computes the same sums, the two norms exchanged.\<close>

lemma cosineLoop_swap:
  "length a = length b \<Longrightarrow> cosineLoop a (Array b) i (d, x, y) = Inr (d', x', y') \<Longrightarrow>
   cosineLoop b (Array a) i (d, y, x) = Inr (d', y', x')"
proof (induction "length a - i" arbitrary: i d x y)
  case 0
  then show ?case by (simp add: cosineLoop_done)
next
  case (Suc n)
  then have lt: "i < length a" "i < length b" by auto
  have n: "n = length a - Suc i" using Suc.hyps(2) by simp
  from Suc.prems(2) have
    "cosineLoop a (Array b) (Suc i)
       (jadd d (jmul (read a i) (read b i)), jadd x (jmul (read a i) (read a i)),
        jadd y (jmul (read b i) (read b i))) = Inr (d', x', y')"
    by (simp add: cosineLoop_step lt)
  from Suc.hyps(1) [OF n Suc.prems(1) this] show ?case
    by (simp add: cosineLoop_step lt jmul_commute [of "read b i" "read a i"])
qed

text \<open>On an array the loop never throws.\<close>

lemma cosineLoop_array_returns: "\<exists>r. cosineLoop a (Array b) i acc = Inr r"
proof (induction "length a - i" arbitrary: i acc)
  case 0
  then have "cosineLoop a (Array b) i acc = Inr acc" by (simp add: cosineLoop_done)
  then show ?case by blast
next
  case (Suc n)
  then have lt: "i < length a" by auto
  have n: "n = length a - Suc i" using Suc.hyps(2) by simp
  obtain d x y where acc: "acc = (d, x, y)" by (cases acc) auto
  show ?case unfolding acc using Suc.hyps(1) [OF n] by (simp add: cosineLoop_step lt)
qed

lemma cosineSimilarity_array_returns: "\<exists>r. cosineSimilarity a (Array b) = Inr r"
proof -
  obtain d x y where "cosineLoop a (Array b) 0 (Num 0, Num 0, Num 0) = Inr (d, x, y)"
    using cosineLoop_array_returns [of a b 0 "(Num 0, Num 0, Num 0)"] by (metis prod_cases3)
  then show ?thesis by (simp add: cosineSimilarity_def)
qed

text \<open>
  C4. Cosine similarity is symmetric: for two vectors \<open>a\<close> and \<open>b\<close> of the same
  dimension, \<open>cosineSimilarity(a, b)\<close> and \<open>cosineSimilarity(b, a)\<close> are the same value.
  This needs neither vector to be non-zero: for a zero vector both calls give \<open>NaN\<close>.
  The dimensions must agree, since the loop runs to \<open>a.length\<close>.
\<close>

theorem cosineSimilarity_symmetric:
  assumes "length a = length b"
  shows "cosineSimilarity a (Array b) = cosineSimilarity b (Array a)"
proof -
  obtain d x y where r: "cosineLoop a (Array b) 0 (Num 0, Num 0, Num 0) = Inr (d, x, y)"
    using cosineLoop_array_returns [of a b 0 "(Num 0, Num 0, Num 0)"] by (metis prod_cases3)
  from cosineLoop_swap [OF assms r] r show ?thesis
    by (simp add: cosineSimilarity_def jmul_commute [of "jsqrt x"])
qed

theorem cosineSimilarity_symmetric_witness:
  "length [Num 1, Num 0] = length [Num 0, Num 1] \<and>
   cosineSimilarity [Num 1, Num 0] (Array [Num 0, Num 1]) = Inr (Num 0) \<and>
   cosineSimilarity [Num 0, Num 1] (Array [Num 1, Num 0]) = Inr (Num 0)"
proof -
  have v: "cosineSimilarity [Num 1, Num 0] (Array [Num 0, Num 1]) = Inr (Num 0)"
    by (simp add: cosineSimilarity_def cosineLoop_step cosineLoop_done read_def)
  from cosineSimilarity_symmetric [of "[Num 1, Num 0]" "[Num 0, Num 1]"] v show ?thesis
    by simp
qed

text \<open>
  For arrays of different lengths the two calls differ: the loop runs to \<open>a.length\<close> and
  reads \<open>b\<close> past its end.
\<close>

lemma cosineSimilarity_lengths_differ:
  "cosineSimilarity [Num 1] (Array [Num 1, Num 0]) = Inr (Num 1) \<and>
   cosineSimilarity [Num 1, Num 0] (Array [Num 1]) = Inr NaN"
  by (simp add: cosineSimilarity_def cosineLoop_step cosineLoop_done read_def)

text \<open>
  For vectors of finite numbers of one dimension the loop computes the dot product and the
  two sums of squares.
\<close>

lemma cosineLoop_finite:
  "length xs = length ys \<Longrightarrow> i \<le> length xs \<Longrightarrow>
   cosineLoop (map Num xs) (Array (map Num ys)) i (Num d, Num p, Num q) =
     Inr (Num (d + (\<Sum>(x, y)\<leftarrow>drop i (zip xs ys). x * y)),
          Num (p + (\<Sum>x\<leftarrow>drop i xs. x * x)),
          Num (q + (\<Sum>y\<leftarrow>drop i ys. y * y)))"
proof (induction "length xs - i" arbitrary: i d p q)
  case 0
  then show ?case by (simp add: cosineLoop_done)
next
  case (Suc n)
  then have lt: "i < length xs" "i < length ys" by auto
  have n: "n = length xs - Suc i" using Suc.hyps(2) by simp
  have le: "Suc i \<le> length xs" using lt by simp
  have dx: "drop i xs = xs ! i # drop (Suc i) xs"
    using lt by (simp add: Cons_nth_drop_Suc)
  have dy: "drop i ys = ys ! i # drop (Suc i) ys"
    using lt by (simp add: Cons_nth_drop_Suc)
  have dz: "drop i (zip xs ys) = (xs ! i, ys ! i) # drop (Suc i) (zip xs ys)"
    using lt by (simp add: Cons_nth_drop_Suc [symmetric])
  show ?case
    using Suc.hyps(1) [OF n Suc.prems(1) le]
    by (simp add: cosineLoop_step lt read_def dx dy dz add.assoc)
qed

lemma sum_squares_nonneg: "0 \<le> (\<Sum>x\<leftarrow>xs. x * x :: real)"
  by (induction xs) simp_all

lemma cosineSimilarity_finite:
  assumes "length xs = length ys"
  shows "cosineSimilarity (map Num xs) (Array (map Num ys)) =
     Inr (jdiv (Num (\<Sum>(x, y)\<leftarrow>zip xs ys. x * y))
               (Num (sqrt (\<Sum>x\<leftarrow>xs. x * x) * sqrt (\<Sum>y\<leftarrow>ys. y * y))))"
proof -
  have "0 \<le> (\<Sum>x\<leftarrow>xs. x * x)" "0 \<le> (\<Sum>y\<leftarrow>ys. y * y)"
    by (simp_all add: sum_squares_nonneg)
  then show ?thesis
    using cosineLoop_finite [OF assms, of 0 0 0 0]
    by (simp add: cosineSimilarity_def)
qed

lemma sum_squares_zero: "(\<Sum>x\<leftarrow>xs. x * x) = (0::real) \<Longrightarrow> \<forall>x\<in>set xs. x = 0"
proof (induction xs)
  case Nil
  then show ?case by simp
next
  case (Cons a xs)
  have "0 \<le> a * a" by simp
  with Cons.prems sum_squares_nonneg [of xs] have "a * a = 0" "(\<Sum>x\<leftarrow>xs. x * x) = 0"
    by (simp_all add: add_nonneg_eq_0_iff)
  with Cons.IH show ?case by simp
qed

lemma dot_zero_left: "\<forall>x\<in>set xs. x = (0::real) \<Longrightarrow> (\<Sum>(x, y)\<leftarrow>zip xs ys. x * y) = 0"
  by (induction xs arbitrary: ys) (auto simp add: zip_Cons1 split: list.splits)

lemma dot_zero_right: "\<forall>y\<in>set ys. y = (0::real) \<Longrightarrow> (\<Sum>(x, y)\<leftarrow>zip xs ys. x * y) = 0"
  by (induction ys arbitrary: xs) (auto simp add: zip_Cons split: list.splits)

text \<open>On \<open>undefined\<close> the loop throws at its first read: the filter of \<open>semanticSearch\<close> is needed.\<close>

lemma cosineSimilarity_undefined_throws:
  "cosineSimilarity [Num 1, Num 0] Undefined = Inl TypeError"
  by (simp add: cosineSimilarity_def cosineLoop.simps)

lemma hasEmbedding_isArray: "hasEmbedding v = isArray (embedding v)"
  by (cases "embedding v") (simp_all add: hasEmbedding_def)

lemmas eval_simps =
  topResults_def similarities_def hasEmbedding_def cosineSimilarity_def cosineLoop_step
  cosineLoop_done read_def sort_js_def sortsAfter_def byRelevance_def jsub_def slice0_def
  exampleVerse_def exampleIndex_def zeroVerse_def shortVerse_def unitVerse_def inf_signed_def

text \<open>
  C5. The claim fails: for a zero vector \<open>cosineSimilarity\<close> returns \<open>NaN\<close>, the outcome
  of \<open>0 / 0\<close>, and \<open>semanticSearch\<close> does not skip the verse, which is returned with the
  relevance \<open>NaN\<close>.
\<close>

theorem cosineSimilarity_zero_counterexample:
  "cosineSimilarity [Num 1, Num 0] (Array [Num 0, Num 0]) = Inr NaN \<and>
   topResults [Num 1, Num 0] [zeroVerse] 20 = Inr [\<lparr>verse = zeroVerse, relevance = NaN\<rparr>]"
  by (simp add: eval_simps)

text \<open>
  C5, as amended. When the two vectors are arrays of finite numbers of one dimension and
  the Euclidean norm of either is zero, \<open>cosineSimilarity\<close> does not throw and returns
  \<open>NaN\<close>; a verse with such an embedding passes the filter of \<open>semanticSearch\<close>.
\<close>

theorem cosineSimilarity_zero_norm:
  assumes "length xs = length ys"
    and "sqrt (\<Sum>x\<leftarrow>xs. x * x) = 0 \<or> sqrt (\<Sum>y\<leftarrow>ys. y * y) = 0"
  shows "cosineSimilarity (map Num xs) (Array (map Num ys)) = Inr NaN \<and>
         hasEmbedding (v\<lparr>embedding := Array (map Num ys)\<rparr>)"
proof -
  from assms(2) have "(\<Sum>(x, y)\<leftarrow>zip xs ys. x * y) = 0"
    using sum_squares_zero dot_zero_left dot_zero_right by auto
  with assms(2) show ?thesis
    by (auto simp add: cosineSimilarity_finite [OF assms(1)] inf_signed_def hasEmbedding_def)
qed

theorem cosineSimilarity_zero_norm_witness:
  "length [1, 0 :: real] = length [0, 0 :: real] \<and>
   sqrt (\<Sum>y\<leftarrow>[0, 0 :: real]. y * y) = 0 \<and>
   cosineSimilarity (map Num [1, 0]) (Array (map Num [0, 0])) = Inr NaN \<and>
   hasEmbedding (unitVerse\<lparr>embedding := Array (map Num [0, 0])\<rparr>)"
  using cosineSimilarity_zero_norm [of "[1, 0]" "[0, 0]" unitVerse] by simp


section \<open>Properties of \<open>semanticSearch\<close>\<close>

subsection \<open>The sort\<close>

lemma set_insertSorted: "set (insertSorted c x ys) = insert x (set ys)"
  by (induction ys) auto


lemma set_sort_js: "set (sort_js c xs) = set xs"
  by (induction xs) (simp_all add: sort_js_def set_insertSorted)


text \<open>Where neither score is \<open>NaN\<close>, the comparator puts \<open>x\<close> behind \<open>y\<close> exactly when its score is not \<open>>=\<close>.\<close>

lemma sortsAfter_byRelevance:
  "relevance x \<noteq> NaN \<Longrightarrow> relevance y \<noteq> NaN \<Longrightarrow>
   sortsAfter byRelevance x y = (\<not> jge (relevance x) (relevance y))"
  by (cases "relevance x"; cases "relevance y")
     (simp_all add: sortsAfter_def byRelevance_def jsub_def jge_def)

lemma sortsAfter_differs: "sortsAfter byRelevance x y \<Longrightarrow> relevance x \<noteq> relevance y"
  by (cases "relevance x"; cases "relevance y")
     (auto simp add: sortsAfter_def byRelevance_def jsub_def)

lemma jge_trans: "jge a b \<Longrightarrow> jge b c \<Longrightarrow> jge a c"
  by (cases a; cases b; cases c) (simp_all add: jge_def)

lemma jge_total: "a \<noteq> NaN \<Longrightarrow> b \<noteq> NaN \<Longrightarrow> jge a b \<or> jge b a"
  by (cases a; cases b) (auto simp add: jge_def)

lemma nonIncreasing_insertSorted:
  assumes "nonIncreasing ys" and "relevance x \<noteq> NaN" and "\<forall>y\<in>set ys. relevance y \<noteq> NaN"
  shows "nonIncreasing (insertSorted byRelevance x ys)"
  using assms
proof (induction ys)
  case Nil
  then show ?case by (simp add: nonIncreasing_def)
next
  case (Cons y ys)
  show ?case
  proof (cases "sortsAfter byRelevance x y")
    case True
    with Cons.prems have "jge (relevance y) (relevance x)"
      using jge_total [of "relevance x" "relevance y"] by (simp add: sortsAfter_byRelevance)
    with True Cons show ?thesis
      by (auto simp add: nonIncreasing_def set_insertSorted)
  next
    case False
    with Cons.prems have "jge (relevance x) (relevance y)"
      by (simp add: sortsAfter_byRelevance)
    with False Cons.prems show ?thesis
      by (auto simp add: nonIncreasing_def intro: jge_trans)
  qed
qed

lemma nonIncreasing_sort_js:
  "\<forall>x\<in>set xs. relevance x \<noteq> NaN \<Longrightarrow> nonIncreasing (sort_js byRelevance xs)"
proof (induction xs)
  case Nil
  then show ?case by (simp add: sort_js_def nonIncreasing_def)
next
  case (Cons x xs)
  then have "nonIncreasing (sort_js byRelevance xs)" by simp
  from nonIncreasing_insertSorted [OF this, of x] Cons.prems show ?case
    by (simp add: sort_js_def set_sort_js [unfolded sort_js_def])
qed

text \<open>The sort keeps the entries of one score in the order they had.\<close>

lemma filter_insertSorted:
  "filter (\<lambda>r. relevance r = s) (insertSorted byRelevance x ys) =
     (if relevance x = s then x # filter (\<lambda>r. relevance r = s) ys
      else filter (\<lambda>r. relevance r = s) ys)"
  by (induction ys) (auto dest: sortsAfter_differs)

lemma sort_js_stable:
  "filter (\<lambda>r. relevance r = s) (sort_js byRelevance xs) = filter (\<lambda>r. relevance r = s) xs"
  by (induction xs) (simp_all add: sort_js_def filter_insertSorted)

lemma nonIncreasing_take: "nonIncreasing xs \<Longrightarrow> nonIncreasing (take n xs)"
  unfolding nonIncreasing_def by (metis append_take_drop_id sorted_wrt_append)

lemma prefix_filter_take: "prefix (filter P (take n xs)) (filter P xs)"
  by (metis append_take_drop_id filter_append prefixI)

subsection \<open>The slice, the filter and the map\<close>

lemma slice0_take: "\<exists>n. slice0 xs k = take n xs"
  by (auto simp add: slice0_def)



text \<open>Over verses whose embeddings are arrays the map does not throw, and scores each verse in its place.\<close>

lemma mapScores_arrays:
  "\<forall>v\<in>set vs. isArray (embedding v) \<Longrightarrow>
   \<exists>sims. mapScores q vs = Inr sims \<and>
     list_all2 (\<lambda>v s. verse s = v \<and> cosineSimilarity q (embedding v) = Inr (relevance s)) vs sims"
proof (induction vs)
  case Nil
  then show ?case by simp
next
  case (Cons v vs)
  then obtain b where b: "embedding v = Array b" by (cases "embedding v") auto
  obtain r where r: "cosineSimilarity q (Array b) = Inr r"
    using cosineSimilarity_array_returns by blast
  from Cons obtain sims where "mapScores q vs = Inr sims"
    "list_all2 (\<lambda>v s. verse s = v \<and> cosineSimilarity q (embedding v) = Inr (relevance s)) vs sims"
    by auto
  with b r show ?case by simp
qed

lemma similarities_returns:
  "\<exists>sims. similarities q idx = Inr sims \<and>
     list_all2 (\<lambda>v s. verse s = v \<and> cosineSimilarity q (embedding v) = Inr (relevance s))
       (filter (\<lambda>v. isArray (embedding v)) idx) sims"
  using mapScores_arrays [of "filter hasEmbedding idx" q]
  by (simp add: similarities_def hasEmbedding_isArray [abs_def])

lemma list_all2_verse:
  "list_all2 (\<lambda>v s. verse s = v \<and> P v s) vs sims \<Longrightarrow> map verse sims = vs"
  by (induction vs sims rule: list_all2_induct) simp_all

subsection \<open>C1: the order of the results\<close>

text \<open>
  C1. The claim fails for a verse whose score is \<open>NaN\<close>. With the query \<open>[1, 0]\<close>, a
  verse with the zero embedding followed by a verse with the embedding \<open>[1, 0]\<close> have the
  scores \<open>NaN\<close> and \<open>1\<close>; the comparator returns \<open>NaN\<close> for the pair, the sort leaves the
  two as they are, and the result is not non-increasing. With \<open>topK = 1\<close> the verse of
  score 1 is not returned.
\<close>

theorem topResults_sorted_counterexample:
  "topResults [Num 1, Num 0] [zeroVerse, unitVerse] 20 =
     Inr [\<lparr>verse = zeroVerse, relevance = NaN\<rparr>, \<lparr>verse = unitVerse, relevance = Num 1\<rparr>] \<and>
   \<not> nonIncreasing [\<lparr>verse = zeroVerse, relevance = NaN\<rparr>, \<lparr>verse = unitVerse, relevance = Num 1\<rparr>] \<and>
   topResults [Num 1, Num 0] [zeroVerse, unitVerse] 1 = Inr [\<lparr>verse = zeroVerse, relevance = NaN\<rparr>]"
  by (simp add: eval_simps nonIncreasing_def jge_def)

text \<open>
  C1, as amended. For every query vector, index and \<open>topK\<close> such that no verse that is
  scored (no verse whose embedding is an array) gets the score \<open>NaN\<close>:
  \<open>semanticSearch\<close> scores the verses that pass its filter, in corpus order; the results
  are sorted non-increasing by score; and for every score, the results with that score
  are the first of the scored verses with that score, in corpus order.
\<close>

theorem topResults_sorted_stable:
  assumes "\<forall>v\<in>set idx. isArray (embedding v) \<longrightarrow> cosineSimilarity q (embedding v) \<noteq> Inr NaN"
  shows "\<exists>sims rs.
           similarities q idx = Inr sims \<and> map verse sims = filter hasEmbedding idx \<and>
           topResults q idx k = Inr rs \<and> nonIncreasing rs \<and>
           (\<forall>s. prefix (filter (\<lambda>r. relevance r = s) rs) (filter (\<lambda>r. relevance r = s) sims))"
proof -
  obtain sims where sims: "similarities q idx = Inr sims"
    and all2: "list_all2 (\<lambda>v s. verse s = v \<and> cosineSimilarity q (embedding v) = Inr (relevance s))
       (filter (\<lambda>v. isArray (embedding v)) idx) sims"
    using similarities_returns by blast
  have verses: "map verse sims = filter hasEmbedding idx"
    using list_all2_verse [OF all2] by (simp add: hasEmbedding_isArray [abs_def])
  have "relevance s \<noteq> NaN" if "s \<in> set sims" for s
  proof -
    from that obtain i where i: "i < length sims" "sims ! i = s"
      by (auto simp add: in_set_conv_nth)
    let ?v = "filter (\<lambda>v. isArray (embedding v)) idx ! i"
    from all2 i have len: "i < length (filter (\<lambda>v. isArray (embedding v)) idx)"
      and c: "cosineSimilarity q (embedding ?v) = Inr (relevance s)"
      by (auto simp add: list_all2_conv_all_nth)
    from len have "?v \<in> set (filter (\<lambda>v. isArray (embedding v)) idx)" by (rule nth_mem)
    then have "?v \<in> set idx" "isArray (embedding ?v)" by simp_all
    with assms c show ?thesis by auto
  qed
  then have sorted: "nonIncreasing (sort_js byRelevance sims)"
    by (simp add: nonIncreasing_sort_js)
  obtain n where n: "slice0 (sort_js byRelevance sims) k = take n (sort_js byRelevance sims)"
    using slice0_take by blast
  have top: "topResults q idx k = Inr (take n (sort_js byRelevance sims))"
    by (simp add: topResults_def sims n)
  have "prefix (filter (\<lambda>r. relevance r = s) (take n (sort_js byRelevance sims)))
          (filter (\<lambda>r. relevance r = s) sims)" for s
    using prefix_filter_take [of "\<lambda>r. relevance r = s" n "sort_js byRelevance sims"]
    by (simp add: sort_js_stable)
  with sims verses top nonIncreasing_take [OF sorted, of n] show ?thesis by blast
qed

text \<open>
  The example: the scores in corpus order are 1, 0, -1, 0 (the third verse has no
  embedding); the first three results are the verses 1, 2 and 5, the two of score 0 in
  corpus order.
\<close>

theorem topResults_sorted_stable_witness:
  "topResults [Num 1, Num 0] exampleIndex 3 =
     Inr [\<lparr>verse = exampleIndex ! 0, relevance = Num 1\<rparr>,
          \<lparr>verse = exampleIndex ! 1, relevance = Num 0\<rparr>,
          \<lparr>verse = exampleIndex ! 4, relevance = Num 0\<rparr>] \<and>
   nonIncreasing
         [\<lparr>verse = exampleIndex ! 0, relevance = Num 1\<rparr>,
          \<lparr>verse = exampleIndex ! 1, relevance = Num 0\<rparr>,
          \<lparr>verse = exampleIndex ! 4, relevance = Num 0\<rparr>]"
proof -
  have hyp: "\<forall>v\<in>set exampleIndex.
      isArray (embedding v) \<longrightarrow> cosineSimilarity [Num 1, Num 0] (embedding v) \<noteq> Inr NaN"
    by (simp add: eval_simps)
  have top: "topResults [Num 1, Num 0] exampleIndex 3 =
     Inr [\<lparr>verse = exampleIndex ! 0, relevance = Num 1\<rparr>,
          \<lparr>verse = exampleIndex ! 1, relevance = Num 0\<rparr>,
          \<lparr>verse = exampleIndex ! 4, relevance = Num 0\<rparr>]"
    by (simp add: eval_simps)
  from topResults_sorted_stable [OF hyp, of 3] top show ?thesis by auto
qed

subsection \<open>C2: the number of results\<close>




subsection \<open>C3: the verses left out\<close>




section \<open>Properties of the flattened verse index\<close>

lemma flattenSurah_append:
  "flattenSurah i s acc = acc @ map (flatVerse i s) (s_verses s)"
proof -
  have "fold (pushVerse i s) vs acc = acc @ map (flatVerse i s) vs" for vs
    by (induction vs arbitrary: acc) (simp_all add: pushVerse_def)
  then show ?thesis by (simp add: flattenSurah_def)
qed

lemma flattenFrom_concat:
  "flattenFrom i ss acc =
     acc @ concat (map (\<lambda>(j, s). map (flatVerse j s) (s_verses s)) (enumerate i ss))"
  by (induction ss arbitrary: i acc) (simp_all add: flattenSurah_append)

lemma length_flattenFrom:
  "length (flattenFrom i ss acc) = length acc + sum_list (map (\<lambda>s. length (s_verses s)) ss)"
  by (induction ss arbitrary: i acc) (simp_all add: flattenSurah_append)

text \<open>
  C6. The flattened index has as many elements as the surahs have verses together; it
  is the surahs' verses in surah-then-verse order, each turned into its record; and
  \<open>loadQuranData\<close> builds it from the corpus alone, whatever the index held before, so
  that loading the same corpus again changes nothing.
\<close>

theorem flatten_length_order_idempotent:
  "length (flatten c) = sum_list (map (\<lambda>s. length (s_verses s)) (surahs c)) \<and>
   flatten c =
     concat (map (\<lambda>(j, s). map (flatVerse j s) (s_verses s)) (enumerate 0 (surahs c))) \<and>
   allVersesWithEmbeddings (loadQuranData st (Some c)) = flatten c \<and>
   loadQuranData (loadQuranData st (Some c)) (Some c) = loadQuranData st (Some c)"
proof -
  have "length (flatten c) = sum_list (map (\<lambda>s. length (s_verses s)) (surahs c))"
    by (simp add: flatten_def length_flattenFrom)
  moreover have "flatten c =
      concat (map (\<lambda>(j, s). map (flatVerse j s) (s_verses s)) (enumerate 0 (surahs c)))"
    by (simp add: flatten_def flattenFrom_concat)
  moreover have "allVersesWithEmbeddings (loadQuranData st (Some c)) = flatten c"
    by (simp add: loadQuranData_def)
  moreover have "loadQuranData (loadQuranData st (Some c)) (Some c) = loadQuranData st (Some c)"
    by (simp add: loadQuranData_def)
  ultimately show ?thesis by blast
qed

subsection \<open>C7: the identifiers of a flattened verse\<close>

lemma sum_take_le:
  fixes f :: "'a \<Rightarrow> nat"
  shows "si < length ss \<Longrightarrow> sum_list (map f (take si ss)) + f (ss ! si) \<le> sum_list (map f ss)"
proof (induction ss arbitrary: si)
  case Nil
  then show ?case by simp
next
  case (Cons s ss)
  then show ?case by (cases si) (simp_all add: add.assoc)
qed

lemma flattenFrom_nth:
  "si < length ss \<Longrightarrow> vj < length (s_verses (ss ! si)) \<Longrightarrow>
   flattenFrom i ss acc ! (length acc + sum_list (map (\<lambda>s. length (s_verses s)) (take si ss)) + vj)
     = flatVerse (i + si) (ss ! si) (s_verses (ss ! si) ! vj)"
proof (induction ss arbitrary: i acc si)
  case Nil
  then show ?case by simp
next
  case (Cons s ss)
  show ?case
  proof (cases si)
    case 0
    with Cons.prems show ?thesis
      by (simp add: flattenFrom_concat flattenSurah_append nth_append)
  next
    case (Suc n)
    with Cons.prems have n: "n < length ss" "vj < length (s_verses (ss ! n))" by simp_all
    from Cons.IH [OF n, of "Suc i" "flattenSurah i s acc"] Suc show ?thesis
      by (simp add: flattenSurah_append add.assoc)
  qed
qed

lemmas flatten_simps =
  flatten_def flattenSurah_def pushVerse_def flatVerse_def flatPosition_def exampleCorpus_def
  gapCorpus_def exampleSurah_def exampleJsonVerse_def

text \<open>
  C7. The claim fails for \<open>verse_id\<close>, which is the \<open>id\<close> stored with the verse in the
  data file: where the file numbers the two verses of a surah 1 and 3, the second
  flattened verse has \<open>verse_id\<close> 3, and its 1-based position in the surah is 2.
\<close>

theorem flatten_verse_id_counterexample:
  "flatPosition gapCorpus 0 1 = 1 \<and>
   verse_id (flatten gapCorpus ! 1) = 3 \<and>
   verse_id (flatten gapCorpus ! 1) \<noteq> int 1 + 1"
  by (simp add: flatten_simps)

text \<open>
  C7, as amended. The flattened record of verse \<open>vj\<close> of surah \<open>si\<close> (counted from 0)
  stands at its place in chapter-then-verse order; its \<open>surah_id\<close> is the 1-based position
  of the surah, \<open>si + 1\<close>, computed from the loop index; its \<open>verse_id\<close> is the \<open>id\<close> field
  stored with the verse in the corpus.
\<close>

theorem flatten_ids:
  assumes "si < length (surahs c)" and "vj < length (s_verses (surahs c ! si))"
  shows "flatPosition c si vj < length (flatten c) \<and>
         surah_id (flatten c ! flatPosition c si vj) = si + 1 \<and>
         verse_id (flatten c ! flatPosition c si vj) = v_id (s_verses (surahs c ! si) ! vj)"
proof -
  have "flatPosition c si vj < length (flatten c)"
    using sum_take_le [OF assms(1), of "\<lambda>s. length (s_verses s)"] assms(2)
    by (simp add: flatPosition_def flatten_def length_flattenFrom)
  moreover have "flatten c ! flatPosition c si vj =
      flatVerse si (surahs c ! si) (s_verses (surahs c ! si) ! vj)"
    using flattenFrom_nth [OF assms, of 0 "[]"] by (simp add: flatPosition_def flatten_def)
  ultimately show ?thesis by (simp add: flatVerse_def)
qed

text \<open>In the example corpus the only verse of the second surah is the third flattened verse.\<close>

theorem flatten_ids_witness:
  "1 < length (surahs exampleCorpus) \<and> 0 < length (s_verses (surahs exampleCorpus ! 1)) \<and>
   flatPosition exampleCorpus 1 0 = 2 \<and>
   surah_id (flatten exampleCorpus ! 2) = 2 \<and>
   verse_id (flatten exampleCorpus ! 2) = 1"
proof -
  have h: "1 < length (surahs exampleCorpus)" "0 < length (s_verses (surahs exampleCorpus ! 1))"
    by (simp_all add: exampleCorpus_def exampleSurah_def)
  have p: "flatPosition exampleCorpus 1 0 = 2"
    by (simp add: flatPosition_def exampleCorpus_def exampleSurah_def)
  have v: "v_id (s_verses (surahs exampleCorpus ! 1) ! 0) = 1"
    by (simp add: exampleCorpus_def exampleSurah_def exampleJsonVerse_def)
  from flatten_ids [OF h] h p v show ?thesis by simp
qed

section \<open>Properties of \<open>getQueryEmbedding\<close>\<close>




text \<open>
  Before the model is loaded the cache is empty: only \<open>getQueryEmbedding\<close> writes to it,
  after the embedder has answered.
\<close>

lemma cache_empty_initially:
  "embedder initial_state = None \<and> queryEmbeddingCache initial_state = Map.empty"
  by (simp add: initial_state_def)

lemma cache_empty_getQueryEmbedding:
  assumes "embedder st = None" and "queryEmbeddingCache st = Map.empty"
  shows "embedder (snd (getQueryEmbedding st query)) = None \<and>
         queryEmbeddingCache (snd (getQueryEmbedding st query)) = Map.empty"
  using assms by (simp add: getQueryEmbedding_def cacheLookup_def)

lemma cache_empty_loadQuranData:
  "embedder (loadQuranData st response) = embedder st \<and>
   queryEmbeddingCache (loadQuranData st response) = queryEmbeddingCache st"
  by (cases response) (simp_all add: loadQuranData_def)

lemma cache_empty_keywordSearchAndDisplay:
  "embedder (keywordSearchAndDisplay toLowerCase st searchTerm) = embedder st \<and>
   queryEmbeddingCache (keywordSearchAndDisplay toLowerCase st searchTerm) = queryEmbeddingCache st"
  by (simp add: keywordSearchAndDisplay_def Let_def)

lemma cache_empty_initializeModel:
  "queryEmbeddingCache (initializeModel st outcome) = queryEmbeddingCache st \<and>
   (embedder (initializeModel st outcome) = None \<longrightarrow> embedder st = None)"
  by (cases outcome) (simp_all add: initializeModel_def)

text \<open>
  In such a state, for a text that is not the name of a property of \<open>Object.prototype\<close>,
  the call throws the error of line 112 and leaves the state as it is.
\<close>

lemma getQueryEmbedding_not_loaded:
  assumes "embedder st = None" and "queryEmbeddingCache st = Map.empty"
    and "query \<notin> set prototypeKeys"
  shows "getQueryEmbedding st query = (Inl ModelNotLoaded, st)"
  using assms by (simp add: getQueryEmbedding_def cacheLookup_def)

text \<open>
  C9. The code departs from the claim for the query \<open>constructor\<close> (and the other names
  in \<open>prototypeKeys\<close>): with no model loaded and nothing cached, the cache check of
  line 106 finds \<open>Object.prototype.constructor\<close>, which is truthy, and line 108 returns it;
  line 112 is not reached and nothing is thrown.
\<close>

theorem getQueryEmbedding_constructor:
  "getQueryEmbedding initial_state ''constructor'' =
     (Inr (Inherited ''constructor''), initial_state)"
  by (simp add: getQueryEmbedding_def cacheLookup_def initial_state_def prototypeKeys_def)

section \<open>Properties of the keyword search\<close>

lemma includes_js_sublist: "includes_js s t = sublist t s"
  by (induction s) (simp_all add: sublist_Cons_right)

lemma keywordMatches_sublist:
  "keywordMatches toLowerCase idx q =
     filter (\<lambda>v. sublist (toLowerCase q) (toLowerCase (text_translation v))) idx"
  by (simp add: keywordMatches_def includes_js_sublist)

lemma slice0_50: "slice0 xs 50 = take 50 xs"
  by (simp add: slice0_def)

lemma subseq_take_filter: "subseq (take n (filter P xs)) xs"
proof -
  have "subseq (take n (filter P xs)) (filter P xs)"
    by (simp add: prefix_imp_subseq take_is_prefix)
  moreover have "subseq (filter P xs) xs"
    by simp
  ultimately show ?thesis
    by (rule subseq_order.trans)
qed

text \<open>On ASCII letters, being the same up to case is having the same lower case.\<close>

lemma sameLetter_asciiLower: "sameLetter c d = (asciiLower c = asciiLower d)"
  by (auto simp add: sameLetter_def asciiLower_def)

lemma list_all2_sameLetter: "list_all2 sameLetter w q = (map asciiLower w = map asciiLower q)"
proof (induction w arbitrary: q)
  case Nil
  then show ?case by auto
next
  case (Cons c w)
  then show ?case by (cases q) (auto simp add: sameLetter_asciiLower)
qed

lemma sublist_asciiLower:
  "sublist (map asciiLower q) (map asciiLower t) = containsIgnoringCase t q"
proof
  assume "sublist (map asciiLower q) (map asciiLower t)"
  then obtain ps ss where "map asciiLower t = ps @ map asciiLower q @ ss"
    by (auto simp add: sublist_def)
  then have "\<exists>us vs. t = us @ vs \<and> ps = map asciiLower us \<and> map asciiLower q @ ss = map asciiLower vs"
    by (simp only: map_eq_append_conv)
  then obtain b rest where b: "t = b @ rest" "map asciiLower q @ ss = map asciiLower rest"
    by blast
  from b(2) [symmetric]
  have "\<exists>us vs. rest = us @ vs \<and> map asciiLower q = map asciiLower us \<and> ss = map asciiLower vs"
    by (simp only: map_eq_append_conv)
  then obtain w a where "rest = w @ a" "map asciiLower q = map asciiLower w"
    by blast
  with b(1) have "t = b @ w @ a \<and> list_all2 sameLetter w q"
    by (simp add: list_all2_sameLetter)
  then show "containsIgnoringCase t q"
    unfolding containsIgnoringCase_def by blast
next
  assume "containsIgnoringCase t q"
  then obtain b w a where "t = b @ w @ a" "map asciiLower w = map asciiLower q"
    by (auto simp add: containsIgnoringCase_def list_all2_sameLetter)
  then have "map asciiLower t = map asciiLower b @ map asciiLower q @ map asciiLower a"
    by simp
  then show "sublist (map asciiLower q) (map asciiLower t)"
    unfolding sublist_def by blast
qed

lemma lowersAscii_lowerExample: "lowersAscii lowerExample"
  by (auto simp add: lowersAscii_def lowerExample_def ascii_def)

text \<open>
  C10. The claim fails for a query whose lower case depends on what follows it. The
  translation \<open>A\<Sigma>B\<close> contains the query \<open>A\<Sigma>\<close> as it is. Lower-cased, the query ends
  in the final sigma and the translation has the small sigma in that place, so the
  translation is not matched, and the search shows the no-results page.
\<close>

theorem keywordSearch_sigma_counterexample:
  "containsIgnoringCase (text_translation sigmaVerse) [65, 931] \<and>
   content (keywordSearchAndDisplay lowerExample
              (initial_state\<lparr>allVersesWithEmbeddings := [sigmaVerse]\<rparr>) [65, 931]) = NoResultsFound"
proof -
  have "text_translation sigmaVerse = [] @ [65, 931] @ [66] \<and> list_all2 sameLetter [65, 931] [65, 931]"
    by (simp add: sigmaVerse_def sameLetter_def)
  then have "containsIgnoringCase (text_translation sigmaVerse) [65, 931]"
    unfolding containsIgnoringCase_def by blast
  moreover have "content (keywordSearchAndDisplay lowerExample
              (initial_state\<lparr>allVersesWithEmbeddings := [sigmaVerse]\<rparr>) [65, 931]) = NoResultsFound"
    by (simp add: keywordSearchAndDisplay_def keywordMatches_def lowerExample_def sigmaVerse_def
        initial_state_def)
  ultimately show ?thesis by simp
qed

text \<open>
  C10, as amended. For every query, whatever \<open>toLowerCase\<close> is: let \<open>ms\<close> be the verses
  of the index whose lower-cased translation contains the lower-cased query as a
  substring, in corpus order. When there is none, the keyword search shows the
  no-results page (and throws nothing). Otherwise it shows the first 50 of \<open>ms\<close> (with the
  count of all of them in the header): these are in corpus order, and at most 50. Where
  the query and the translations are strings of ASCII characters, and \<open>toLowerCase\<close> does
  to such strings what the built-in does, \<open>ms\<close> are exactly the verses whose translation
  contains the query as a case-insensitive substring.
\<close>

theorem keywordSearch_matches:
  "(let ms = filter (\<lambda>v. sublist (toLowerCase q) (toLowerCase (text_translation v)))
               (allVersesWithEmbeddings st)
    in content (keywordSearchAndDisplay toLowerCase st q) =
         (if ms = [] then NoResultsFound else KeywordResults (length ms) (take 50 ms) q) \<and>
       subseq (take 50 ms) (allVersesWithEmbeddings st) \<and>
       length (take 50 ms) \<le> 50 \<and>
       (lowersAscii toLowerCase \<and> ascii q \<and>
        (\<forall>v\<in>set (allVersesWithEmbeddings st). ascii (text_translation v)) \<longrightarrow>
        ms = filter (\<lambda>v. containsIgnoringCase (text_translation v) q) (allVersesWithEmbeddings st)))"
proof -
  let ?idx = "allVersesWithEmbeddings st"
  let ?ms = "filter (\<lambda>v. sublist (toLowerCase q) (toLowerCase (text_translation v))) ?idx"
  have shown: "content (keywordSearchAndDisplay toLowerCase st q) =
         (if ?ms = [] then NoResultsFound else KeywordResults (length ?ms) (take 50 ?ms) q)"
    by (simp add: Let_def keywordSearchAndDisplay_def keywordMatches_sublist
        displayKeywordResults_def slice0_50)
  have order: "subseq (take 50 ?ms) ?idx"
    by (rule subseq_take_filter)
  have "?ms = filter (\<lambda>v. containsIgnoringCase (text_translation v) q) ?idx"
    if low: "lowersAscii toLowerCase" and q: "ascii q"
      and idx: "\<forall>v\<in>set ?idx. ascii (text_translation v)"
  proof (rule filter_cong [OF refl])
    fix v
    assume "v \<in> set ?idx"
    with idx have "ascii (text_translation v)" by simp
    with low q have "toLowerCase q = map asciiLower q"
      "toLowerCase (text_translation v) = map asciiLower (text_translation v)"
      by (simp_all add: lowersAscii_def)
    then show "sublist (toLowerCase q) (toLowerCase (text_translation v)) =
        containsIgnoringCase (text_translation v) q"
      by (simp add: sublist_asciiLower)
  qed
  with shown order show ?thesis
    by (simp add: Let_def)
qed

text \<open>
  In the example index the searches for \<open>MERCY\<close> and for \<open>mercy\<close> find the one verse
  that has \<open>Mercy\<close>, and it is the only verse that contains \<open>MERCY\<close> up to case.
\<close>

theorem keywordSearch_matches_witness:
  "lowersAscii lowerExample \<and> ascii (js ''MERCY'') \<and>
   list_all (\<lambda>v. ascii (text_translation v)) exampleIndex \<and>
   content (keywordSearchAndDisplay lowerExample
              (initial_state\<lparr>allVersesWithEmbeddings := exampleIndex\<rparr>) (js ''MERCY''))
     = KeywordResults 1 [exampleIndex ! 0] (js ''MERCY'') \<and>
   content (keywordSearchAndDisplay lowerExample
              (initial_state\<lparr>allVersesWithEmbeddings := exampleIndex\<rparr>) (js ''mercy''))
     = KeywordResults 1 [exampleIndex ! 0] (js ''mercy'') \<and>
   filter (\<lambda>v. containsIgnoringCase (text_translation v) (js ''MERCY'')) exampleIndex
     = [exampleIndex ! 0]"
proof -
  let ?st = "initial_state\<lparr>allVersesWithEmbeddings := exampleIndex\<rparr>"
  have q: "ascii (js ''MERCY'')"
    by (simp add: ascii_def js_def)
  have idx: "list_all (\<lambda>v. ascii (text_translation v)) exampleIndex"
    by (simp add: ascii_def js_def exampleIndex_def exampleVerse_def)
  then have idx': "\<forall>v\<in>set (allVersesWithEmbeddings ?st). ascii (text_translation v)"
    by (simp add: list_all_iff)
  have upper: "content (keywordSearchAndDisplay lowerExample ?st (js ''MERCY''))
     = KeywordResults 1 [exampleIndex ! 0] (js ''MERCY'')"
    by (simp add: keywordSearchAndDisplay_def keywordMatches_def displayKeywordResults_def
        slice0_def lowerExample_def asciiLower_def js_def initial_state_def exampleIndex_def
        exampleVerse_def)
  have lower: "content (keywordSearchAndDisplay lowerExample ?st (js ''mercy''))
     = KeywordResults 1 [exampleIndex ! 0] (js ''mercy'')"
    by (simp add: keywordSearchAndDisplay_def keywordMatches_def displayKeywordResults_def
        slice0_def lowerExample_def asciiLower_def js_def initial_state_def exampleIndex_def
        exampleVerse_def)
  let ?ms = "filter (\<lambda>v. sublist (lowerExample (js ''MERCY'')) (lowerExample (text_translation v)))
               (allVersesWithEmbeddings ?st)"
  from keywordSearch_matches [of lowerExample "js ''MERCY''" ?st]
  have shown: "content (keywordSearchAndDisplay lowerExample ?st (js ''MERCY'')) =
         (if ?ms = [] then NoResultsFound else KeywordResults (length ?ms) (take 50 ?ms) (js ''MERCY''))"
    and spec: "?ms = filter (\<lambda>v. containsIgnoringCase (text_translation v) (js ''MERCY''))
         (allVersesWithEmbeddings ?st)"
    using lowersAscii_lowerExample q idx' by (simp_all add: Let_def)
  from shown upper have "?ms \<noteq> []" "length ?ms = 1" "take 50 ?ms = [exampleIndex ! 0]"
    by (auto split: if_splits)
  then have "?ms = [exampleIndex ! 0]"
    by simp
  with spec have "filter (\<lambda>v. containsIgnoringCase (text_translation v) (js ''MERCY'')) exampleIndex
     = [exampleIndex ! 0]"
    by simp
  with lowersAscii_lowerExample q idx upper lower show ?thesis by simp
qed

end
